theory Spec2Isabelle
  imports Complex_Main "HOL-Library.AList" "HOL-Library.Char_ord" "HOL-Library.List_Lexorder" "HOL-Library.Product_Lexorder"
begin

section \<open>Labeled tensors\<close>

text \<open>
  The module \<^verbatim>\<open>brainscore_vision/metric_helpers/xarray_utils.py\<close> works on xarray
  \<^verbatim>\<open>DataArray\<close>s: an n-dimensional array, a tuple of axis names (\<^verbatim>\<open>dims\<close>), a mapping
  of coordinates and a mapping of attributes whose values may be \<^verbatim>\<open>DataArray\<close>s again.

  An array is a nested list: an axis of length \<open>n\<close> is a node with \<open>n\<close> children. An
  axis of length zero hides the lengths of the axes below it, which hold no element
  either. A coordinate is what \<^verbatim>\<open>walk_coords\<close> of brainio yields for it: its name, the
  axes it lies on and its labels. The mappings are association lists in insertion order,
  as Python dictionaries are.
\<close>

type_synonym name = string

datatype label = LInt int | LStr string

datatype 'a nd = Item 'a | Arr "'a nd list"

type_synonym coord = "name \<times> name list \<times> label nd"

datatype 'a pyattr = Plain label | Nested 'a

datatype tensor =
  Tensor (dims: "name list") (vals: "real nd") (coords: "coord list")
    (attrs: "(name \<times> tensor pyattr) list")

text \<open>The exceptions of Python that the module and the modelled library calls raise.\<close>

datatype error =
    AssertionError
  | KeyError
  | ValueError
  | IndexError
  | TypeError
  | AttributeError
  | RecursionError
  | RuntimeError
  | StrategyError string

definition ebind :: "error + 'a \<Rightarrow> ('a \<Rightarrow> error + 'b) \<Rightarrow> error + 'b" where
  "ebind m f = (case m of Inl e \<Rightarrow> Inl e | Inr x \<Rightarrow> f x)"

subsection \<open>Arrays\<close>

fun nd_size :: "nat \<Rightarrow> 'a nd \<Rightarrow> nat" where
  "nd_size k (Item x) = 0"
| "nd_size 0 (Arr xs) = length xs"
| "nd_size (Suc k) (Arr xs) = (case xs of [] \<Rightarrow> 0 | x # _ \<Rightarrow> nd_size k x)"

fun has_shape :: "nat list \<Rightarrow> 'a nd \<Rightarrow> bool" where
  "has_shape [] (Item x) = True"
| "has_shape (n # ns) (Arr xs) = (length xs = n \<and> list_all (has_shape ns) xs)"
| "has_shape [] (Arr xs) = False"
| "has_shape (n # ns) (Item x) = False"

fun nd_shape :: "nat \<Rightarrow> 'a nd \<Rightarrow> nat list" where
  "nd_shape 0 x = []"
| "nd_shape (Suc r) (Item x) = replicate (Suc r) 0"
| "nd_shape (Suc r) (Arr xs) =
     length xs # (case xs of [] \<Rightarrow> replicate r 0 | y # _ \<Rightarrow> nd_shape r y)"

text \<open>Integer indexing along axis \<open>k\<close> (the axis disappears), and indexing with a list of
  positions along axis \<open>k\<close> (the axis stays, reordered).\<close>

fun nd_isel :: "nat \<Rightarrow> nat \<Rightarrow> 'a nd \<Rightarrow> 'a nd" where
  "nd_isel k i (Item x) = Item x"
| "nd_isel 0 i (Arr xs) = xs ! i"
| "nd_isel (Suc k) i (Arr xs) = Arr (map (nd_isel k i) xs)"

fun nd_take :: "nat \<Rightarrow> nat list \<Rightarrow> 'a nd \<Rightarrow> 'a nd" where
  "nd_take k p (Item x) = Item x"
| "nd_take 0 p (Arr xs) = Arr (map (\<lambda>i. xs ! i) p)"
| "nd_take (Suc k) p (Arr xs) = Arr (map (nd_take k p) xs)"

text \<open>Reading one element by its positions, outermost axis first.\<close>

fun nd_item :: "'a nd \<Rightarrow> nat list \<Rightarrow> 'a option" where
  "nd_item (Item x) [] = Some x"
| "nd_item (Arr xs) (i # is) = (if i < length xs then nd_item (xs ! i) is else None)"
| "nd_item (Item x) (i # is) = None"
| "nd_item (Arr xs) [] = None"

definition pos :: "name list \<Rightarrow> name \<Rightarrow> nat" where
  "pos ds d = length (takeWhile (\<lambda>x. x \<noteq> d) ds)"

definition drop_nth :: "nat \<Rightarrow> 'a list \<Rightarrow> 'a list" where
  "drop_nth k xs = take k xs @ drop (Suc k) xs"

text \<open>
  \<^verbatim>\<open>numpy.transpose\<close>, by axis names: \<open>cur\<close> names the axes of the array, \<open>ds\<close> is the order
  asked for. The first axis of the result is axis \<open>d\<close> of the array; fixing it to \<open>i\<close>
  leaves the array to be reordered to the rest of \<open>ds\<close>.
\<close>

fun transpose_vals :: "name list \<Rightarrow> name list \<Rightarrow> 'a nd \<Rightarrow> 'a nd" where
  "transpose_vals cur [] x = x"
| "transpose_vals cur (d # ds) x =
     Arr (map (\<lambda>i. transpose_vals (drop_nth (pos cur d) cur) ds (nd_isel (pos cur d) i x))
            [0..<nd_size (pos cur d) x])"

subsection \<open>The part of xarray the module calls\<close>

definition size_of :: "tensor \<Rightarrow> name \<Rightarrow> nat" where
  "size_of t d = nd_size (pos (dims t) d) (vals t)"

definition wf_coord :: "tensor \<Rightarrow> coord \<Rightarrow> bool" where
  "wf_coord t c = (case c of (n, cd, v) \<Rightarrow>
     distinct cd \<and> list_all (\<lambda>d. d \<in> set (dims t)) cd \<and> has_shape (map (size_of t) cd) v)"

text \<open>The invariants of a \<^verbatim>\<open>DataArray\<close>: one name per axis of the array, no name twice,
  a rectangular array, coordinate names unique, every coordinate on axes of the array
  and as long as they are.\<close>

definition wf_tensor :: "tensor \<Rightarrow> bool" where
  "wf_tensor t =
     (distinct (dims t) \<and> has_shape (nd_shape (length (dims t)) (vals t)) (vals t)
      \<and> distinct (map fst (coords t)) \<and> list_all (wf_coord t) (coords t))"

definition coord_transpose :: "name list \<Rightarrow> coord \<Rightarrow> coord" where
  "coord_transpose ds c = (case c of (n, cd, v) \<Rightarrow>
     (n, filter (\<lambda>d. d \<in> set cd) ds, transpose_vals cd (filter (\<lambda>d. d \<in> set cd) ds) v))"

text \<open>\<^verbatim>\<open>DataArray.transpose(*ds)\<close>: \<open>ds\<close> must be a permutation of the axes, else xarray
  raises \<^verbatim>\<open>ValueError\<close>. Coordinates on several axes are reordered with the array
  (\<^verbatim>\<open>transpose_coords=True\<close>); the attributes are kept.\<close>

definition transpose :: "tensor \<Rightarrow> name list \<Rightarrow> error + tensor" where
  "transpose t ds =
     (if distinct ds \<and> set ds = set (dims t) \<and> length ds = length (dims t)
      then Inr (Tensor ds (transpose_vals (dims t) ds (vals t))
                  (map (coord_transpose ds) (coords t)) (attrs t))
      else Inl ValueError)"

text \<open>\<^verbatim>\<open>array[name]\<close> for a coordinate: its axes and labels. A name that is an axis without a
  coordinate reads as the positions \<open>0 .. n-1\<close> on that axis; any other name is a
  \<^verbatim>\<open>KeyError\<close>.\<close>

definition getitem :: "tensor \<Rightarrow> name \<Rightarrow> error + (name list \<times> label nd)" where
  "getitem t n =
     (case map_of (coords t) n of
        Some c \<Rightarrow> Inr c
      | None \<Rightarrow>
          if n \<in> set (dims t)
          then Inr ([n], Arr (map (\<lambda>i. Item (LInt (int i))) [0..<size_of t n]))
          else Inl KeyError)"

fun nd_items :: "'a nd \<Rightarrow> 'a list" where
  "nd_items (Item x) = [x]"
| "nd_items (Arr xs) = concat (map nd_items xs)"

fun emap :: "('a \<Rightarrow> error + 'b) \<Rightarrow> 'a list \<Rightarrow> error + 'b list" where
  "emap f [] = Inr []"
| "emap f (x # xs) = ebind (f x) (\<lambda>y. ebind (emap f xs) (\<lambda>ys. Inr (y # ys)))"

text \<open>Labels sort as numpy sorts them: integers by value, strings by code point.\<close>

fun label_key :: "label \<Rightarrow> nat \<times> int \<times> string" where
  "label_key (LInt i) = (0, i, [])"
| "label_key (LStr s) = (1, 0, s)"

text \<open>\<^verbatim>\<open>numpy.lexsort\<close>, first key first: the positions \<open>0 .. n-1\<close> in the stable order of
  their key tuples.\<close>

definition lexsort :: "label list list \<Rightarrow> nat \<Rightarrow> nat list" where
  "lexsort keys n = sort_key (\<lambda>i. map (\<lambda>k. label_key (k ! i)) keys) [0..<n]"

text \<open>\<^verbatim>\<open>isel\<close> with an array of positions along one axis: the array and every coordinate on
  that axis are reordered along it.\<close>

definition take_along :: "tensor \<Rightarrow> name \<Rightarrow> nat list \<Rightarrow> tensor" where
  "take_along t d p =
     Tensor (dims t) (nd_take (pos (dims t) d) p (vals t))
       (map (\<lambda>(n, cd, v). if d \<in> set cd then (n, cd, nd_take (pos cd d) p v) else (n, cd, v))
          (coords t))
       (attrs t)"

definition add_var ::
  "(name \<times> label list list) list \<Rightarrow> name list \<times> label nd \<Rightarrow> (name \<times> label list list) list" where
  "add_var acc a =
     (case map_of acc (hd (fst a)) of
        None \<Rightarrow> acc @ [(hd (fst a), [nd_items (snd a)])]
      | Some ks \<Rightarrow> AList.update (hd (fst a)) (ks @ [nd_items (snd a)]) acc)"

text \<open>\<^verbatim>\<open>DataArray.sortby(variables)\<close>: every variable is looked up and must be
  one-dimensional (\<^verbatim>\<open>ValueError\<close> otherwise); the variables are grouped by their axis, and
  every such axis is reordered by the \<^verbatim>\<open>lexsort\<close> of its variables.\<close>

definition sortby :: "tensor \<Rightarrow> name list \<Rightarrow> error + tensor" where
  "sortby t variables =
     ebind (emap (getitem t) variables) (\<lambda>arrays.
       if list_ex (\<lambda>a. length (fst a) \<noteq> 1) arrays then Inl ValueError
       else Inr (fold (\<lambda>(d, keys) t'. take_along t' d (lexsort keys (size_of t d)))
                   (foldl add_var [] arrays) t))"

text \<open>The constructor \<^verbatim>\<open>DataArray(values, coords=coords, dims=dims)\<close>, which the assembly
  classes of brainio and \<^verbatim>\<open>Score\<close> inherit: it raises \<^verbatim>\<open>ValueError\<close> unless the invariants
  of a \<^verbatim>\<open>DataArray\<close> hold. The new array has no attributes.\<close>

definition DataArray :: "real nd \<Rightarrow> coord list \<Rightarrow> name list \<Rightarrow> error + tensor" where
  "DataArray values cs ds =
     (if wf_tensor (Tensor ds values cs []) then Inr (Tensor ds values cs []) else Inl ValueError)"

text \<open>\<^verbatim>\<open>array.stack(new_dim=[d])\<close> with one axis to stack: the axis moves to the end under
  the name \<open>new_dim\<close>, and so it does in every coordinate on it; the coordinate \<open>d\<close> of
  the axis becomes the one level of the new axis. xarray refuses a new axis that has
  the name of an axis of the array.\<close>

definition stack :: "tensor \<Rightarrow> name \<Rightarrow> name \<Rightarrow> error + tensor" where
  "stack t new_dim d =
     (if new_dim \<in> set (dims t) \<or> d \<notin> set (dims t) then Inl ValueError
      else Inr (Tensor (remove1 d (dims t) @ [new_dim])
                  (transpose_vals (dims t) (remove1 d (dims t) @ [d]) (vals t))
                  (map (\<lambda>(n, cd, v).
                          if d \<in> set cd
                          then (n, remove1 d cd @ [new_dim], transpose_vals cd (remove1 d cd @ [d]) v)
                          else (n, cd, v))
                     (coords t))
                  (attrs t)))"

subsection \<open>The helpers of brainio\<close>

text \<open>\<^verbatim>\<open>walk_coords\<close> yields \<^verbatim>\<open>(name, dims, values)\<close> for every coordinate, the levels of a
  multi-index each on its own; \<^verbatim>\<open>array_is_element(arr, element)\<close> is
  \<^verbatim>\<open>len(arr) == 1 and arr[0] == element\<close>.\<close>

definition walk_coords :: "tensor \<Rightarrow> coord list" where
  "walk_coords assembly = coords assembly"

definition array_is_element :: "name list \<Rightarrow> name \<Rightarrow> bool" where
  "array_is_element arr element = (length arr = 1 \<and> arr ! 0 = element)"

text \<open>A dictionary built from pairs in order: a later pair with a key already present
  replaces the value in place.\<close>

definition dict_of :: "('k \<times> 'v) list \<Rightarrow> ('k \<times> 'v) list" where
  "dict_of ps = fold (\<lambda>(k, v). AList.update k v) ps []"

section \<open>XarrayRegression\<close>

text \<open>
  The wrapped regression is an object with a \<^verbatim>\<open>fit\<close> and a \<^verbatim>\<open>predict\<close> method and a state
  of its own, of type \<open>'r\<close>; either method may raise. \<^verbatim>\<open>_target_neuroid_values\<close> is \<^verbatim>\<open>None\<close>
  until \<^verbatim>\<open>fit\<close> has run. The defaults of the constructor come from
  \<^verbatim>\<open>brainscore_vision.metric_helpers.Defaults\<close>, so they are fields given by the caller.
\<close>

record 'r XarrayRegression =
  regression_fit :: "'r \<Rightarrow> tensor \<Rightarrow> tensor \<Rightarrow> error + 'r"
  regression_predict :: "'r \<Rightarrow> tensor \<Rightarrow> error + real nd"
  regression :: 'r
  expected_dims :: "name list"
  neuroid_dim :: name
  neuroid_coord :: name
  stimulus_coord :: name
  target_neuroid_values :: "(name \<times> label nd) list option"

definition align :: "'r XarrayRegression \<Rightarrow> tensor \<Rightarrow> error + tensor" where
  "align self assembly =
     (if set (dims assembly) = set (expected_dims self)
      then transpose assembly (expected_dims self)
      else Inl AssertionError)"

definition init ::
  "('r \<Rightarrow> tensor \<Rightarrow> tensor \<Rightarrow> error + 'r) \<Rightarrow> ('r \<Rightarrow> tensor \<Rightarrow> error + real nd) \<Rightarrow> 'r \<Rightarrow>
   name list \<Rightarrow> name \<Rightarrow> name \<Rightarrow> name \<Rightarrow> 'r XarrayRegression" where
  "init rfit rpredict r expected_dims' neuroid_dim' neuroid_coord' stimulus_coord' =
     \<lparr> regression_fit = rfit, regression_predict = rpredict, regression = r,
       expected_dims = expected_dims', neuroid_dim = neuroid_dim',
       neuroid_coord = neuroid_coord', stimulus_coord = stimulus_coord',
       target_neuroid_values = None \<rparr>"

text \<open>The loop of \<^verbatim>\<open>fit\<close> over \<^verbatim>\<open>walk_coords(target)\<close>, filling the dictionary \<open>acc\<close>.\<close>

fun capture :: "name \<Rightarrow> coord list \<Rightarrow> (name \<times> label nd) list \<Rightarrow> error + (name \<times> label nd) list" where
  "capture nd [] acc = Inr acc"
| "capture nd ((name, cdims, values) # cs) acc =
     (if nd \<in> set cdims
      then (if array_is_element cdims nd then capture nd cs (AList.update name values acc)
            else Inl AssertionError)
      else capture nd cs acc)"

definition fit :: "'r XarrayRegression \<Rightarrow> tensor \<Rightarrow> tensor \<Rightarrow> error + 'r XarrayRegression" where
  "fit self source target =
     ebind (align self source) (\<lambda>source1.
     ebind (align self target) (\<lambda>target1.
     ebind (sortby source1 [stimulus_coord self]) (\<lambda>source2.
     ebind (sortby target1 [stimulus_coord self]) (\<lambda>target2.
     ebind (regression_fit self (regression self) source2 target2) (\<lambda>r.
     ebind (capture (neuroid_dim self) (walk_coords target2) []) (\<lambda>tnv.
       Inr (self\<lparr>regression := r, target_neuroid_values := Some tnv\<rparr>)))))))"

text \<open>
  \<^verbatim>\<open>_package_prediction\<close>. \<^verbatim>\<open>len(self._target_neuroid_values)\<close> is a \<^verbatim>\<open>TypeError\<close> while
  the field is \<^verbatim>\<open>None\<close>. \<open>neuroid_level_dim\<close> is the one captured name, if there is
  exactly one; the empty string is false where the source tests its truth.
\<close>

definition package_prediction :: "'r XarrayRegression \<Rightarrow> real nd \<Rightarrow> tensor \<Rightarrow> error + tensor" where
  "package_prediction self predicted_values source =
     (let coords0 = dict_of (filter (\<lambda>(coord, cdims, values).
                       \<not> array_is_element cdims (neuroid_dim self)) (walk_coords source))
      in case target_neuroid_values self of
           None \<Rightarrow> Inl TypeError
         | Some tnv \<Rightarrow>
            (let neuroid_level_dim = (if length tnv = 1 then Some (fst (hd tnv)) else None);
                 dims1 = (case neuroid_level_dim of
                            Some l \<Rightarrow> map (\<lambda>dim. if dim \<noteq> neuroid_dim self then dim else l) (dims source)
                          | None \<Rightarrow> dims source);
                 cdim = (case neuroid_level_dim of
                           Some l \<Rightarrow> if l \<noteq> [] then l else neuroid_dim self
                         | None \<Rightarrow> neuroid_dim self);
                 coords1 = fold (\<lambda>(target_coord, target_value).
                             AList.update target_coord ([cdim], target_value)) tnv coords0
             in ebind (DataArray predicted_values coords1 dims1) (\<lambda>prediction.
                  case neuroid_level_dim of
                    Some l \<Rightarrow> if l \<noteq> [] then stack prediction (neuroid_dim self) l else Inr prediction
                  | None \<Rightarrow> Inr prediction)))"

definition predict :: "'r XarrayRegression \<Rightarrow> tensor \<Rightarrow> error + tensor" where
  "predict self source =
     ebind (align self source) (\<lambda>source1.
     ebind (regression_predict self (regression self) source1) (\<lambda>predicted_values.
       package_prediction self predicted_values source1))"

text \<open>The names of the coordinates of a tensor with the axes each lies on.\<close>

definition coord_sig :: "tensor \<Rightarrow> (name \<times> name list) list" where
  "coord_sig t = map (\<lambda>c. (fst c, fst (snd c))) (coords t)"

text \<open>Some coordinate of the tensor lies on the axis \<open>nd\<close> and is not a coordinate on
  that axis alone.\<close>

definition touches_other_axis :: "name \<Rightarrow> tensor \<Rightarrow> bool" where
  "touches_other_axis nd t = list_ex (\<lambda>c. nd \<in> set (fst (snd c)) \<and> fst (snd c) \<noteq> [nd]) (coords t)"







section \<open>XarrayCorrelation\<close>




section \<open>recursive\_op\<close>







section \<open>recursive\_op on a store of objects\<close>











section \<open>Example values\<close>

text \<open>A two-by-three assembly with one coordinate on each axis, and an adapter around a
  regression that accepts everything and predicts the values of its source.\<close>

definition T_ex :: tensor where
  "T_ex = Tensor [''neuroid'', ''presentation'']
     (Arr [Arr [Item 1, Item 2, Item 3], Arr [Item 4, Item 5, Item 6]])
     [(''neuroid_id'', [''neuroid''], Arr [Item (LInt 10), Item (LInt 20)]),
      (''stimulus_id'', [''presentation''], Arr [Item (LInt 3), Item (LInt 1), Item (LInt 2)])]
     []"

definition A_ex :: "unit XarrayRegression" where
  "A_ex = \<lparr> regression_fit = (\<lambda>r s t. Inr r), regression_predict = (\<lambda>r s. Inr (vals s)),
     regression = (), expected_dims = [''presentation'', ''neuroid''], neuroid_dim = ''neuroid'',
     neuroid_coord = ''neuroid_id'', stimulus_coord = ''stimulus_id'',
     target_neuroid_values = None \<rparr>"

text \<open>An assembly with a coordinate on both axes.\<close>

definition T_bad :: tensor where
  "T_bad = Tensor [''presentation'', ''neuroid'']
     (Arr [Arr [Item 1, Item 2], Arr [Item 3, Item 4]])
     [(''stimulus_id'', [''presentation''], Arr [Item (LInt 2), Item (LInt 1)]),
      (''cell'', [''presentation'', ''neuroid''],
         Arr [Arr [Item (LInt 0), Item (LInt 1)], Arr [Item (LInt 2), Item (LInt 3)]])]
     []"












section \<open>Properties of the arrays\<close>

lemma pos_less: "d \<in> set ds \<Longrightarrow> pos ds d < length ds"
  unfolding pos_def by (induction ds) auto

lemma pos_nth: "d \<in> set ds \<Longrightarrow> ds ! pos ds d = d"
  unfolding pos_def by (induction ds) auto

lemma length_drop_nth: "k < length xs \<Longrightarrow> length (drop_nth k xs) = length xs - 1"
  unfolding drop_nth_def by auto

lemma drop_nth_Cons_Suc: "drop_nth (Suc k) (x # xs) = x # drop_nth k xs"
  unfolding drop_nth_def by simp

lemma drop_nth_Cons_0: "drop_nth 0 (x # xs) = xs"
  unfolding drop_nth_def by simp

lemma drop_nth_map: "drop_nth k (map f xs) = map f (drop_nth k xs)"
  unfolding drop_nth_def by (simp add: take_map drop_map)

lemma set_drop_nth_pos:
  "distinct ds \<Longrightarrow> d \<in> set ds \<Longrightarrow> set (drop_nth (pos ds d) ds) = set ds - {d}"
  unfolding drop_nth_def pos_def
  by (induction ds) auto

lemma distinct_drop_nth: "distinct ds \<Longrightarrow> distinct (drop_nth k ds)"
proof -
  assume d: "distinct ds"
  have a: "distinct (take k ds)" and b: "distinct (drop k ds)"
    and c: "set (take k ds) \<inter> set (drop k ds) = {}"
    using d distinct_append[of "take k ds" "drop k ds"] unfolding append_take_drop_id by blast+
  have "set (drop (Suc k) ds) \<subseteq> set (drop k ds)"
    by (rule set_drop_subset_set_drop) simp
  with a b c d show ?thesis unfolding drop_nth_def by auto
qed

lemma nd_shape_nth: "j < r \<Longrightarrow> nd_shape r x ! j = nd_size j x"
proof (induction r x arbitrary: j rule: nd_shape.induct)
  case (1 x) then show ?case by simp
next
  case (2 r x)
  then show ?case by (cases j) auto
next
  case (3 r xs)
  show ?case
  proof (cases j)
    case 0 then show ?thesis by simp
  next
    case (Suc j')
    with 3 show ?thesis by (cases xs) auto
  qed
qed

lemma has_shape_isel:
  "has_shape ns x \<Longrightarrow> k < length ns \<Longrightarrow> i < ns ! k \<Longrightarrow> has_shape (drop_nth k ns) (nd_isel k i x)"
proof (induction k arbitrary: ns x)
  case 0
  then show ?case
    by (cases ns; cases x) (auto simp: drop_nth_Cons_0 list_all_length)
next
  case (Suc k)
  then show ?case
    by (cases ns; cases x) (auto simp: drop_nth_Cons_Suc list_all_iff)
qed

lemma nd_size_shape:
  "has_shape ns x \<Longrightarrow> k < length ns \<Longrightarrow> list_all (\<lambda>n. 0 < n) ns \<Longrightarrow> nd_size k x = ns ! k"
proof (induction k arbitrary: ns x)
  case 0
  then show ?case by (cases ns; cases x) auto
next
  case (Suc k)
  then show ?case
    by (cases ns; cases x) (auto split: list.splits)
qed

lemma nd_item_isel:
  "has_shape ns x \<Longrightarrow> k < length ns \<Longrightarrow> list_all2 (<) is ns \<Longrightarrow>
   nd_item (nd_isel k (is ! k) x) (drop_nth k is) = nd_item x is"
proof (induction k arbitrary: ns x "is")
  case 0
  then show ?case
    by (cases ns; cases x; cases "is") (auto simp: drop_nth_Cons_0)
next
  case (Suc k)
  then show ?case
    by (cases ns; cases x; cases "is") (auto simp: drop_nth_Cons_Suc list_all_length)
qed


lemma list_all2_drop_nth:
  "list_all2 P xs ys \<Longrightarrow> list_all2 P (drop_nth k xs) (drop_nth k ys)"
  unfolding drop_nth_def
  by (intro list_all2_appendI list_all2_takeI list_all2_dropI)

lemma bounds_pos:
  "list_all2 (\<lambda>d n. (idx d :: nat) < n) cur ns \<Longrightarrow> list_all (\<lambda>n. 0 < n) ns"
  by (induction cur ns rule: list_all2_induct) auto

lemma transpose_vals_item:
  "has_shape ns x \<Longrightarrow> distinct cur \<Longrightarrow> distinct ds \<Longrightarrow> set ds = set cur \<Longrightarrow>
   list_all2 (\<lambda>d n. idx d < n) cur ns \<Longrightarrow>
   nd_item (transpose_vals cur ds x) (map idx ds) = nd_item x (map idx cur)"
proof (induction ds arbitrary: cur ns x)
  case Nil
  then show ?case by simp
next
  case (Cons d ds)
  let ?k = "pos cur d"
  have len: "length cur = length ns" using Cons.prems(5) by (rule list_all2_lengthD)
  have din: "d \<in> set cur" using Cons.prems(4) by auto
  have k: "?k < length ns" using pos_less[OF din] len by simp
  have kd: "cur ! ?k = d" using din by (rule pos_nth)
  have posn: "list_all (\<lambda>n. 0 < n) ns" using Cons.prems(5) by (rule bounds_pos)
  have sz: "nd_size ?k x = ns ! ?k" using Cons.prems(1) k posn by (rule nd_size_shape)
  have idxd: "idx d < ns ! ?k"
    using Cons.prems(5) k kd len by (auto simp: list_all2_conv_all_nth)
  have is2: "list_all2 (<) (map idx cur) ns"
    using Cons.prems(5) by (simp add: list_all2_conv_all_nth)
  have sh': "has_shape (drop_nth ?k ns) (nd_isel ?k (idx d) x)"
    using Cons.prems(1) k idxd by (rule has_shape_isel)
  have set': "set ds = set (drop_nth ?k cur)"
    using Cons.prems(2,3,4) din by (auto simp: set_drop_nth_pos)
  have ih: "nd_item (transpose_vals (drop_nth ?k cur) ds (nd_isel ?k (idx d) x)) (map idx ds)
        = nd_item (nd_isel ?k (idx d) x) (map idx (drop_nth ?k cur))"
    using Cons.IH[OF sh' distinct_drop_nth[OF Cons.prems(2)] _ set' list_all2_drop_nth[OF Cons.prems(5)]]
      Cons.prems(3) by simp
  have "nd_item (nd_isel ?k (map idx cur ! ?k) x) (drop_nth ?k (map idx cur)) = nd_item x (map idx cur)"
    using Cons.prems(1) k is2 by (rule nd_item_isel)
  then have fin: "nd_item (nd_isel ?k (idx d) x) (map idx (drop_nth ?k cur)) = nd_item x (map idx cur)"
    using k kd len by (simp add: drop_nth_map)
  show ?case using sz idxd ih fin by simp
qed

lemma length_nd_shape: "length (nd_shape r x) = r"
proof (induction r arbitrary: x)
  case 0
  then show ?case by simp
next
  case (Suc r)
  then show ?case by (cases x) (auto split: list.splits)
qed

lemma pos_nth_distinct: "distinct ds \<Longrightarrow> i < length ds \<Longrightarrow> pos ds (ds ! i) = i"
  unfolding pos_def
proof (induction ds arbitrary: i)
  case Nil
  then show ?case by simp
next
  case (Cons a ds)
  then show ?case by (cases i) auto
qed

lemma bounds_of_sizes:
  "list_all (\<lambda>d. idx d < nd_size (pos cur d) x) cur \<Longrightarrow> distinct cur \<Longrightarrow>
   list_all2 (\<lambda>d n. idx d < n) cur (nd_shape (length cur) x)"
  by (simp add: list_all2_conv_all_nth length_nd_shape nd_shape_nth list_all_length
      pos_nth_distinct)

lemma wf_T_ex: "wf_tensor T_ex"
  by (simp add: wf_tensor_def T_ex_def wf_coord_def size_of_def pos_def)

section \<open>Alignment\<close>

text \<open>
  Claim C4. \<^verbatim>\<open>_align\<close> raises (the \<^verbatim>\<open>AssertionError\<close> of its \<^verbatim>\<open>assert\<close>) exactly when
  the set of axis names of the assembly differs from the set of expected axes, whatever
  their order. When the sets are equal it returns a tensor whose \<^verbatim>\<open>dims\<close> are the expected
  axes in their order, and the data is only permuted: the element at any position, named
  axis by axis, is the element the assembly has at that position. The assembly is a
  well-formed \<^verbatim>\<open>DataArray\<close> and the expected axes are a tuple of distinct names.
\<close>

theorem align_axis_sets:
  assumes wf: "wf_tensor assembly" and de: "distinct (expected_dims self)"
  shows "(set (dims assembly) \<noteq> set (expected_dims self) \<longrightarrow> align self assembly = Inl AssertionError)
    \<and> (set (dims assembly) = set (expected_dims self) \<longrightarrow>
         (\<exists>t. align self assembly = Inr t \<and> dims t = expected_dims self
            \<and> (\<forall>idx. list_all (\<lambda>d. idx d < size_of assembly d) (dims assembly) \<longrightarrow>
                  nd_item (vals t) (map idx (dims t))
                    = nd_item (vals assembly) (map idx (dims assembly)))))"
proof (intro conjI impI)
  assume "set (dims assembly) \<noteq> set (expected_dims self)"
  then show "align self assembly = Inl AssertionError" by (simp add: align_def)
next
  assume eq: "set (dims assembly) = set (expected_dims self)"
  have dd: "distinct (dims assembly)" using wf by (simp add: wf_tensor_def)
  have sh: "has_shape (nd_shape (length (dims assembly)) (vals assembly)) (vals assembly)"
    using wf by (simp add: wf_tensor_def)
  have len: "length (expected_dims self) = length (dims assembly)"
    using eq dd de by (metis distinct_card)
  let ?t = "Tensor (expected_dims self)
      (transpose_vals (dims assembly) (expected_dims self) (vals assembly))
      (map (coord_transpose (expected_dims self)) (coords assembly)) (attrs assembly)"
  have r: "align self assembly = Inr ?t"
    using eq de len by (simp add: align_def transpose_def)
  have "nd_item (vals ?t) (map idx (dims ?t)) = nd_item (vals assembly) (map idx (dims assembly))"
    if b: "list_all (\<lambda>d. idx d < size_of assembly d) (dims assembly)" for idx
  proof -
    have "list_all2 (\<lambda>d n. idx d < n) (dims assembly)
        (nd_shape (length (dims assembly)) (vals assembly))"
      using b dd unfolding size_of_def by (rule bounds_of_sizes)
    from transpose_vals_item[OF sh dd de eq[symmetric] this] show ?thesis by simp
  qed
  with r show "\<exists>t. align self assembly = Inr t \<and> dims t = expected_dims self
            \<and> (\<forall>idx. list_all (\<lambda>d. idx d < size_of assembly d) (dims assembly) \<longrightarrow>
                  nd_item (vals t) (map idx (dims t))
                    = nd_item (vals assembly) (map idx (dims assembly)))"
    by auto
qed

theorem align_axis_sets_witness:
  "wf_tensor T_ex \<and> distinct (expected_dims A_ex)
   \<and> set (dims T_ex) = set (expected_dims A_ex)
   \<and> (\<exists>t. align A_ex T_ex = Inr t \<and> dims t = [''presentation'', ''neuroid'']
        \<and> nd_item (vals t) [2, 1] = Some 6 \<and> nd_item (vals T_ex) [1, 2] = Some 6)"
proof -
  have de: "distinct (expected_dims A_ex)" by (simp add: A_ex_def)
  have eq: "set (dims T_ex) = set (expected_dims A_ex)" by (auto simp: A_ex_def T_ex_def)
  let ?idx = "\<lambda>d. if d = ''neuroid'' then 1 else (2::nat)"
  have b: "list_all (\<lambda>d. ?idx d < size_of T_ex d) (dims T_ex)"
    by (simp add: T_ex_def size_of_def pos_def)
  from align_axis_sets[OF wf_T_ex de] eq obtain t where
    t: "align A_ex T_ex = Inr t" "dims t = expected_dims A_ex"
     "\<forall>idx. list_all (\<lambda>d. idx d < size_of T_ex d) (dims T_ex) \<longrightarrow>
        nd_item (vals t) (map idx (dims t)) = nd_item (vals T_ex) (map idx (dims T_ex))"
    by blast
  have "nd_item (vals t) (map ?idx (dims t)) = nd_item (vals T_ex) (map ?idx (dims T_ex))"
    by (rule t(3)[rule_format, OF b])
  then have "nd_item (vals t) [2, 1] = Some 6 \<and> nd_item (vals T_ex) [1, 2] = Some 6"
    using t(2) by (simp add: A_ex_def T_ex_def)
  with t wf_T_ex de eq show ?thesis by (auto simp: A_ex_def)
qed

section \<open>Fitting\<close>

lemma coord_sig_take_along: "coord_sig (take_along t d p) = coord_sig t"
  by (auto simp: coord_sig_def take_along_def split: prod.splits)

lemma coord_sig_fold_take:
  "coord_sig (fold (\<lambda>(d, keys) t'. take_along t' d (f d keys)) xs t) = coord_sig t"
  by (induction xs arbitrary: t) (auto simp: coord_sig_take_along split: prod.splits)

lemma sortby_coord_sig: "sortby t vs = Inr t' \<Longrightarrow> coord_sig t' = coord_sig t"
  unfolding sortby_def ebind_def
  by (auto split: sum.splits if_splits
      simp: coord_sig_fold_take[where f="\<lambda>d keys. lexsort keys (size_of t d)"])

lemma capture_Inl:
  "capture nd cs acc = Inl e \<Longrightarrow> e = AssertionError"
  by (induction nd cs acc rule: capture.induct) (auto split: if_splits)

lemma capture_bad:
  "(n, cd, v) \<in> set cs \<Longrightarrow> nd \<in> set cd \<Longrightarrow> \<not> array_is_element cd nd \<Longrightarrow>
   capture nd cs acc = Inl AssertionError"
  by (induction nd cs acc rule: capture.induct) (auto split: if_splits)

lemma capture_sig:
  "capture nd cs acc = capture nd (map (\<lambda>c. (fst c, fst (snd c), snd (snd c))) cs) acc"
  by simp


lemma coord_sig_mem:
  "(n, cd) \<in> set (coord_sig t) \<longleftrightarrow> (\<exists>v. (n, cd, v) \<in> set (coords t))"
  by (force simp: coord_sig_def)

lemma transpose_coord_mem:
  "transpose t ds = Inr t' \<Longrightarrow> (n, cd, v) \<in> set (coords t) \<Longrightarrow>
   (n, filter (\<lambda>d. d \<in> set cd) ds) \<in> set (coord_sig t')"
  by (force simp: transpose_def coord_sig_def coord_transpose_def split: if_splits)

lemma filter_single:
  assumes "distinct cd" "distinct ds" "set cd \<subseteq> set ds" "nd \<in> set cd"
    and "array_is_element (filter (\<lambda>d. d \<in> set cd) ds) nd"
  shows "cd = [nd]"
proof -
  let ?f = "filter (\<lambda>d. d \<in> set cd) ds"
  have s: "set ?f = set cd" using assms(3) by auto
  have "distinct ?f" using assms(2) by simp
  then have "length ?f = length cd" using s assms(1) by (metis distinct_card)
  then have l: "length cd = 1" using assms(5) by (simp add: array_is_element_def)
  then obtain x where "cd = [x]" by (cases cd) auto
  with assms(4) show ?thesis by simp
qed

lemma fit_bad_capture:
  assumes wf: "wf_tensor target" and bad: "touches_other_axis (neuroid_dim self) target"
    and a: "align self target = Inr target1"
    and s: "sortby target1 [stimulus_coord self] = Inr target2"
  shows "capture (neuroid_dim self) (walk_coords target2) acc = Inl AssertionError"
proof -
  let ?nd = "neuroid_dim self"
  from bad obtain n cd v where c: "(n, cd, v) \<in> set (coords target)" "?nd \<in> set cd" "cd \<noteq> [?nd]"
    by (auto simp: touches_other_axis_def list_ex_iff)
  from a have eq: "set (dims target) = set (expected_dims self)"
    and tr: "transpose target (expected_dims self) = Inr target1"
    by (auto simp: align_def split: if_splits)
  from tr have de: "distinct (expected_dims self)" by (auto simp: transpose_def split: if_splits)
  from wf c(1) have wc: "distinct cd" "set cd \<subseteq> set (dims target)"
    by (auto simp: wf_tensor_def wf_coord_def list_all_iff)
  let ?cd = "filter (\<lambda>d. d \<in> set cd) (expected_dims self)"
  have "(n, ?cd) \<in> set (coord_sig target1)" using tr c(1) by (rule transpose_coord_mem)
  then have "(n, ?cd) \<in> set (coord_sig target2)" using sortby_coord_sig[OF s] by simp
  then obtain v' where m: "(n, ?cd, v') \<in> set (coords target2)" by (auto simp: coord_sig_mem)
  have in': "?nd \<in> set ?cd" using c(2) wc(2) eq by auto
  have "\<not> array_is_element ?cd ?nd"
    using filter_single[OF wc(1) de _ c(2)] wc(2) eq c(3) by auto
  with m in' show ?thesis unfolding walk_coords_def by (rule capture_bad[rotated 2, rotated])
qed

lemma wf_T_bad: "wf_tensor T_bad"
  by (simp add: wf_tensor_def T_bad_def wf_coord_def size_of_def pos_def)

text \<open>
  Claim C10. When the target carries a coordinate that lies on the neuroid axis and is not
  a coordinate on that axis alone, \<^verbatim>\<open>fit\<close> raises: if alignment, sorting and the wrapped
  regression all succeed, the error is the \<^verbatim>\<open>AssertionError\<close> of the \<^verbatim>\<open>assert\<close> in the
  capture loop. So \<^verbatim>\<open>fit\<close> returns only when every coordinate of the target that involves
  the neuroid axis lies on exactly that axis.
\<close>

theorem fit_neuroid_coords_single_axis:
  assumes wf: "wf_tensor target"
  shows "(touches_other_axis (neuroid_dim self) target \<longrightarrow> (\<exists>e. fit self source target = Inl e))
    \<and> (touches_other_axis (neuroid_dim self) target \<longrightarrow>
         (\<forall>source1 target1 source2 target2 r.
            align self source = Inr source1 \<longrightarrow> align self target = Inr target1 \<longrightarrow>
            sortby source1 [stimulus_coord self] = Inr source2 \<longrightarrow>
            sortby target1 [stimulus_coord self] = Inr target2 \<longrightarrow>
            regression_fit self (regression self) source2 target2 = Inr r \<longrightarrow>
            fit self source target = Inl AssertionError))
    \<and> ((\<exists>self'. fit self source target = Inr self') \<longrightarrow>
         (\<forall>c \<in> set (coords target).
            neuroid_dim self \<in> set (fst (snd c)) \<longrightarrow> fst (snd c) = [neuroid_dim self]))"
proof -
  have main: "\<exists>e. fit self source target = Inl e"
    if bad: "touches_other_axis (neuroid_dim self) target"
  proof (cases "align self target")
    case (Inl e)
    then show ?thesis by (auto simp: fit_def ebind_def split: sum.splits)
  next
    case a: (Inr target1)
    show ?thesis
    proof (cases "sortby target1 [stimulus_coord self]")
      case (Inl e)
      with a show ?thesis by (auto simp: fit_def ebind_def split: sum.splits)
    next
      case s: (Inr target2)
      have "capture (neuroid_dim self) (walk_coords target2) [] = Inl AssertionError"
        using wf bad a s by (rule fit_bad_capture)
      with a s show ?thesis by (auto simp: fit_def ebind_def split: sum.splits)
    qed
  qed
  have second: "fit self source target = Inl AssertionError"
    if bad: "touches_other_axis (neuroid_dim self) target"
      and "align self source = Inr source1" and a: "align self target = Inr target1"
      and "sortby source1 [stimulus_coord self] = Inr source2"
      and s: "sortby target1 [stimulus_coord self] = Inr target2"
      and "regression_fit self (regression self) source2 target2 = Inr r"
    for source1 target1 source2 target2 r
  proof -
    have "capture (neuroid_dim self) (walk_coords target2) [] = Inl AssertionError"
      using wf bad a s by (rule fit_bad_capture)
    with that show ?thesis by (simp add: fit_def ebind_def)
  qed
  have third: "fst (snd c) = [neuroid_dim self]"
    if ok: "\<exists>self'. fit self source target = Inr self'" and c: "c \<in> set (coords target)"
      and n: "neuroid_dim self \<in> set (fst (snd c))" for c
  proof (rule ccontr)
    assume "fst (snd c) \<noteq> [neuroid_dim self]"
    with c n have "touches_other_axis (neuroid_dim self) target"
      by (auto simp: touches_other_axis_def list_ex_iff)
    from main[OF this] ok show False by auto
  qed
  from main second third show ?thesis by blast
qed

theorem fit_neuroid_coords_single_axis_witness:
  "wf_tensor T_bad \<and> touches_other_axis (neuroid_dim A_ex) T_bad
   \<and> fit A_ex T_ex T_bad = Inl AssertionError
   \<and> (\<exists>self'. fit A_ex T_ex T_ex = Inr self')
   \<and> list_all (\<lambda>c. neuroid_dim A_ex \<in> set (fst (snd c)) \<longrightarrow> fst (snd c) = [neuroid_dim A_ex])
        (coords T_ex)"
proof -
  have bad: "touches_other_axis (neuroid_dim A_ex) T_bad"
    by (simp add: touches_other_axis_def A_ex_def T_bad_def)
  have a1: "\<exists>t. align A_ex T_ex = Inr t" and a2: "\<exists>t. align A_ex T_bad = Inr t"
    by (auto simp: align_def transpose_def A_ex_def T_ex_def T_bad_def)
  then obtain s1 t1 where s1: "align A_ex T_ex = Inr s1" and t1: "align A_ex T_bad = Inr t1"
    by blast
  have "\<not> isl (fit A_ex T_ex T_ex)" by code_simp
  then have ok: "\<exists>self'. fit A_ex T_ex T_ex = Inr self'"
    by (cases "fit A_ex T_ex T_ex") auto
  have e: "\<exists>e. fit A_ex T_ex T_bad = Inl e"
    using fit_neuroid_coords_single_axis[OF wf_T_bad, of A_ex T_ex] bad by blast
  have "case fit A_ex T_ex T_bad of Inl e \<Rightarrow> e = AssertionError | Inr x \<Rightarrow> False"
    by code_simp
  with e have "fit A_ex T_ex T_bad = Inl AssertionError" by auto
  moreover have "list_all (\<lambda>c. neuroid_dim A_ex \<in> set (fst (snd c)) \<longrightarrow> fst (snd c) = [neuroid_dim A_ex])
        (coords T_ex)"
    using fit_neuroid_coords_single_axis[OF wf_T_ex, of A_ex T_ex] ok
    by (auto simp: list_all_iff)
  ultimately show ?thesis using wf_T_bad bad ok by blast
qed

text \<open>
  Claim C8. On an adapter as \<^verbatim>\<open>__init__\<close> leaves it, \<^verbatim>\<open>predict\<close> of a source whose axis set
  is the expected one raises. The wrapped \<^verbatim>\<open>predict\<close> runs first; when it returns, the
  error is the \<^verbatim>\<open>TypeError\<close> of \<^verbatim>\<open>len(None)\<close> in \<^verbatim>\<open>_package_prediction\<close>, which is how the
  module reports a model that was not fitted.
\<close>

theorem predict_before_fit:
  assumes "set (dims source) = set expected"
  shows "(\<exists>e. predict (init rfit rpredict r expected nd nc sc) source = Inl e)
    \<and> (\<forall>source1 v. align (init rfit rpredict r expected nd nc sc) source = Inr source1 \<longrightarrow>
          rpredict r source1 = Inr v \<longrightarrow>
          predict (init rfit rpredict r expected nd nc sc) source = Inl TypeError)"
  by (auto simp: predict_def init_def ebind_def package_prediction_def Let_def split: sum.splits)

theorem predict_before_fit_witness:
  "set (dims T_ex) = set [''presentation'', ''neuroid'']
   \<and> predict (init (\<lambda>r s t. Inr r) (\<lambda>r s. Inr (vals s)) () [''presentation'', ''neuroid'']
        ''neuroid'' ''neuroid_id'' ''stimulus_id'') T_ex = Inl TypeError"
proof -
  have s: "set (dims T_ex) = set [''presentation'', ''neuroid'']" by (auto simp: T_ex_def)
  have "\<exists>t. align (init (\<lambda>r s t. Inr r) (\<lambda>r s. Inr (vals s)) () [''presentation'', ''neuroid'']
        ''neuroid'' ''neuroid_id'' ''stimulus_id'') T_ex = Inr t"
    by (auto simp: align_def transpose_def init_def T_ex_def)
  with predict_before_fit[OF s, of "\<lambda>r s t. Inr r" "\<lambda>r s. Inr (vals s)" "()" "''neuroid''"
      "''neuroid_id''" "''stimulus_id''"] s
  show ?thesis by blast
qed

section \<open>Packaging a prediction\<close>













































section \<open>Prediction after fitting\<close>






section \<open>Sorting keeps a tensor well formed\<close>


















section \<open>The comparison adapter\<close>











section \<open>The attribute tree of the result of recursive\_op\<close>











section \<open>Which objects recursive\_op writes\<close>











end
